theory Spec2Isabelle
  imports Main "HOL-Library.Sublist"
begin

section \<open>Errors\<close>

text \<open>
  The exceptions of the model: a missing dictionary key
  (\<^verbatim>\<open>config["configurable"]["user_id"]\<close>, \<^verbatim>\<open>mem.value['content']\<close>), end of input at the
  password prompt, a value or an operating-system call rejected (\<^verbatim>\<open>ValueError\<close>,
  \<^verbatim>\<open>OSError\<close>), and the orchestration library's step limit.
\<close>

datatype error = KeyError string | EOFError | ValueError | OSError | GraphRecursionError

section \<open>Environment setup: \<^verbatim>\<open>_set_env\<close>\<close>

text \<open>
  The names and values the process environment can hold: a name is not empty and has
  no \<^verbatim>\<open>=\<close> and no NUL character, a value has no NUL character. \<^verbatim>\<open>os.environ\<close> is a
  dictionary from such names to such values.
\<close>

definition valid_name :: "string \<Rightarrow> bool" where
  "valid_name name = (name \<noteq> [] \<and> CHR ''='' \<notin> set name \<and> CHR 0x00 \<notin> set name)"

definition valid_value :: "string \<Rightarrow> bool" where
  "valid_value val = (CHR 0x00 \<notin> set val)"

typedef environment =
  "{m :: string \<rightharpoonup> string. \<forall>k v. m k = Some v \<longrightarrow> valid_name k \<and> valid_value v}"
  by (rule exI [of _ Map.empty]) simp

setup_lifting type_definition_environment

lift_definition env_empty :: environment is "Map.empty"
  by simp

lift_definition env_get :: "environment \<Rightarrow> string \<Rightarrow> string option" is "\<lambda>m k. m k" .

lift_definition env_put :: "string \<Rightarrow> string \<Rightarrow> environment \<Rightarrow> environment" is
  "\<lambda>k v m. if valid_name k \<and> valid_value v then m(k \<mapsto> v) else m"
  by (auto split: if_splits)

text \<open>
  The process state \<^verbatim>\<open>_set_env\<close> touches: \<^verbatim>\<open>os.environ\<close>, the lines the user will type
  at the terminal, and the prompts shown so far.
\<close>

record os_state =
  os_environ :: environment
  tty_input :: "string list"
  prompts :: "string list"

text \<open>\<^verbatim>\<open>os.environ.get(var)\<close>: the value of a variable, \<open>None\<close> when it is not set.\<close>

definition environ :: "os_state \<Rightarrow> string \<Rightarrow> string option" where
  "environ s var = env_get (os_environ s) var"

text \<open>
  \<^verbatim>\<open>os.environ[key] = val\<close>: \<^verbatim>\<open>ValueError\<close> for a NUL character in the name or the value and
  for \<^verbatim>\<open>=\<close> in the name, \<^verbatim>\<open>OSError\<close> for the empty name (the operating system refuses
  it); otherwise the variable is set.
\<close>

definition environ_setitem :: "string \<Rightarrow> string \<Rightarrow> os_state \<Rightarrow> (error + unit) \<times> os_state" where
  "environ_setitem key val s =
     (if CHR 0x00 \<in> set key \<or> CHR 0x00 \<in> set val \<or> CHR ''='' \<in> set key then (Inl ValueError, s)
      else if key = [] then (Inl OSError, s)
      else (Inr (), s\<lparr>os_environ := env_put key val (os_environ s)\<rparr>))"

text \<open>
  \<^verbatim>\<open>getpass.getpass(prompt)\<close>: shows the prompt and reads one line without echo; at end of
  input it raises \<^verbatim>\<open>EOFError\<close>.
\<close>

definition getpass :: "string \<Rightarrow> os_state \<Rightarrow> (error + string) \<times> os_state" where
  "getpass prompt s =
     (case tty_input s of
        [] \<Rightarrow> (Inl EOFError, s\<lparr>prompts := prompts s @ [prompt]\<rparr>)
      | l # ls \<Rightarrow> (Inr l, s\<lparr>tty_input := ls, prompts := prompts s @ [prompt]\<rparr>))"

text \<open>
  \<^verbatim>\<open>
  def _set_env(var: str):
      env_value = os.environ.get(var)
      if not env_value:
          env_value = getpass.getpass(f"{var}: ")
      os.environ[var] = env_value
  \<close>
  \<^verbatim>\<open>not env_value\<close> holds for \<^verbatim>\<open>None\<close> (the variable is unset) and for the empty string.
\<close>

definition set_env :: "string \<Rightarrow> os_state \<Rightarrow> (error + unit) \<times> os_state" where
  "set_env var s =
     (case environ s var of
        None \<Rightarrow>
          (case getpass (var @ '': '') s of
             (Inl e, s1) \<Rightarrow> (Inl e, s1)
           | (Inr env_value, s1) \<Rightarrow> environ_setitem var env_value s1)
      | Some env_value0 \<Rightarrow>
          if env_value0 = [] then
            (case getpass (var @ '': '') s of
               (Inl e, s1) \<Rightarrow> (Inl e, s1)
             | (Inr env_value, s1) \<Rightarrow> environ_setitem var env_value s1)
          else environ_setitem var env_value0 s)"

section \<open>The memory schema\<close>

text \<open>
  JSON documents, as \<^verbatim>\<open>model_dump\<close> produces them and as the store keeps them. A Python
  dictionary that is stored or compared is an association list in key order.
\<close>

datatype json = JNull | JBool bool | JNum int | JStr string | JArr "json list"
  | JObj "(string \<times> json) list"

type_synonym pydict = "(string \<times> json) list"

text \<open>
  \<^verbatim>\<open>
  class Memory(BaseModel):
      content: str = Field(description=...)

  class MemoryCollection(BaseModel):
      memories: list[Memory] = Field(description=...)
  \<close>
\<close>

record Memory =
  content :: string

record MemoryCollection =
  memories :: "Memory list"

text \<open>\<^verbatim>\<open>Memory.model_dump()\<close>, also with \<^verbatim>\<open>mode="json"\<close>: one entry per declared field.\<close>

definition model_dump :: "Memory \<Rightarrow> pydict" where
  "model_dump m = [(''content'', JStr (content m))]"

section \<open>The store, the models and the other external components\<close>

type_synonym namespace = "string list"

text \<open>An item returned by \<^verbatim>\<open>store.search\<close>: its namespace, key and value.\<close>

record Item =
  item_namespace :: namespace
  item_key :: string
  item_value :: pydict

datatype message = SystemMessage string | HumanMessage string | AIMessage string

text \<open>\<^verbatim>\<open>MessagesState\<close>: the graph state, a dictionary with the one key \<^verbatim>\<open>"messages"\<close>.\<close>

record MessagesState =
  messages :: "message list"

text \<open>
  \<^verbatim>\<open>RunnableConfig\<close>: the entries \<^verbatim>\<open>config["configurable"]\<close> (read by the nodes and by the
  checkpointer) and \<^verbatim>\<open>config["recursion_limit"]\<close> (read by the orchestration library);
  \<open>None\<close> for an entry the dictionary does not have.
\<close>

record config =
  configurable :: "(string \<rightharpoonup> string) option"
  recursion_limit :: "int option"

text \<open>
  The result of \<^verbatim>\<open>trustcall_extractor.invoke\<close>: \<^verbatim>\<open>result["responses"]\<close>, instances of the one
  tool schema the extractor was created with (\<^verbatim>\<open>tools=[Memory]\<close>), and
  \<^verbatim>\<open>result["response_metadata"]\<close>, one dictionary per tool call.
\<close>

record extraction =
  responses :: "Memory list"
  response_metadata :: "(string \<rightharpoonup> string) list"

type_synonym existing_memory = "string \<times> string \<times> pydict"

text \<open>
  The notebook implements none of the components it calls; the nodes are written against
  their interfaces. They are parameters of the model:
  \<^item> \<^verbatim>\<open>store.search(namespace)\<close>, \<^verbatim>\<open>store.get(namespace, key)\<close> and
    \<^verbatim>\<open>store.put(namespace, key, value)\<close> of a \<^verbatim>\<open>BaseStore\<close>, over a store state of any type
    \<open>'s\<close>. A \<open>put\<close> returns the new store or raises (the library's stores reject some
    namespaces). The nodes never call \<open>get\<close>; it says what a store holds;
  \<^item> \<^verbatim>\<open>model.invoke\<close>, \<^verbatim>\<open>trustcall_extractor.invoke\<close>, \<^verbatim>\<open>merge_message_runs\<close> and the state
    reducer of \<^verbatim>\<open>MessagesState\<close>;
  \<^item> \<^verbatim>\<open>uuid.uuid4()\<close>, as the function from the number of earlier calls to the string of
    the UUID drawn;
  \<^item> Python's formatting of a value inside an f-string;
  \<^item> what the compiled graph does with the config before the first node runs: it raises
    (the checkpointer the graph is compiled with finds no thread in
    \<^verbatim>\<open>config["configurable"]\<close>, or \<^verbatim>\<open>config["recursion_limit"]\<close> is below 1), or it starts
    the run with the number of steps it allows (from \<^verbatim>\<open>config["recursion_limit"]\<close>, or
    the library's default).
  The search, the two models, the merge and the reducer are taken as functions that
  return; a failure inside one of them is outside the notebook's code.
\<close>

record 's externals =
  store_search :: "'s \<Rightarrow> namespace \<Rightarrow> Item list"
  store_get :: "'s \<Rightarrow> namespace \<Rightarrow> string \<Rightarrow> pydict option"
  store_put :: "'s \<Rightarrow> namespace \<Rightarrow> string \<Rightarrow> pydict \<Rightarrow> error + 's"
  model_invoke :: "message list \<Rightarrow> message"
  extractor_invoke :: "message list \<Rightarrow> existing_memory list option \<Rightarrow> extraction"
  merge_message_runs :: "message list \<Rightarrow> message list"
  add_messages :: "message list \<Rightarrow> message \<Rightarrow> message list"
  uuid4 :: "nat \<Rightarrow> string"
  py_format :: "json \<Rightarrow> string"
  admit_run :: "config \<Rightarrow> error + nat"

text \<open>
  What a node can observe and change: the store, the number of UUIDs drawn so far, and
  the log of the calls made to the external components, in order. A search is logged
  with the items it returned, a put when it is called, whether it then returns or raises.
\<close>

datatype event =
    Search namespace
  | Found "Item list"
  | Put namespace string pydict
  | ModelInvoke "message list"
  | ExtractorInvoke "message list" "existing_memory list option"
  | NodeStart string
  | NodeEnd string

record 's world =
  store :: 's
  uuid_calls :: nat
  log :: "event list"

definition search_store :: "'s externals \<Rightarrow> namespace \<Rightarrow> 's world \<Rightarrow> Item list \<times> 's world" where
  "search_store X ns w =
     (store_search X (store w) ns,
      w\<lparr>log := log w @ [Search ns, Found (store_search X (store w) ns)]\<rparr>)"

definition put_store ::
  "'s externals \<Rightarrow> namespace \<Rightarrow> string \<Rightarrow> pydict \<Rightarrow> 's world \<Rightarrow> (error + unit) \<times> 's world" where
  "put_store X ns k v w =
     (case store_put X (store w) ns k v of
        Inl e \<Rightarrow> (Inl e, w\<lparr>log := log w @ [Put ns k v]\<rparr>)
      | Inr s' \<Rightarrow> (Inr (), w\<lparr>store := s', log := log w @ [Put ns k v]\<rparr>))"

definition new_uuid :: "'s externals \<Rightarrow> 's world \<Rightarrow> string \<times> 's world" where
  "new_uuid X w = (uuid4 X (uuid_calls w), w\<lparr>uuid_calls := Suc (uuid_calls w)\<rparr>)"

definition invoke_model :: "'s externals \<Rightarrow> message list \<Rightarrow> 's world \<Rightarrow> message \<times> 's world" where
  "invoke_model X msgs w = (model_invoke X msgs, w\<lparr>log := log w @ [ModelInvoke msgs]\<rparr>)"

definition invoke_extractor ::
  "'s externals \<Rightarrow> message list \<Rightarrow> existing_memory list option \<Rightarrow> 's world \<Rightarrow> extraction \<times> 's world" where
  "invoke_extractor X msgs existing w =
     (extractor_invoke X msgs existing, w\<lparr>log := log w @ [ExtractorInvoke msgs existing]\<rparr>)"

text \<open>The events a computation from world \<open>w\<close> to world \<open>w'\<close> has added to the log.\<close>

definition events_since :: "'s world \<Rightarrow> 's world \<Rightarrow> event list" where
  "events_since w w' = drop (length (log w)) (log w')"

fun is_put :: "event \<Rightarrow> bool" where
  "is_put (Put ns k v) = True"
| "is_put e = False"

fun is_extractor_invoke :: "event \<Rightarrow> bool" where
  "is_extractor_invoke (ExtractorInvoke msgs existing) = True"
| "is_extractor_invoke e = False"

fun is_node_event :: "event \<Rightarrow> bool" where
  "is_node_event (NodeStart n) = True"
| "is_node_event (NodeEnd n) = True"
| "is_node_event e = False"

text \<open>The namespace a store access names; \<open>None\<close> for an event that is no store access.\<close>

fun accessed_namespace :: "event \<Rightarrow> namespace option" where
  "accessed_namespace (Search ns) = Some ns"
| "accessed_namespace (Put ns k v) = Some ns"
| "accessed_namespace e = None"

section \<open>The two nodes\<close>

definition MODEL_SYSTEM_MESSAGE_format :: "string \<Rightarrow> string" where
  "MODEL_SYSTEM_MESSAGE_format memory =
     ''You are a helpful chatbot. You are designed to be a companion to a user. \<newline>\<newline>You have a long term memory which keeps track of information you learn about the user over time.\<newline>\<newline>Current Memory (may include updated memories from this conversation): \<newline>\<newline>'' @ memory"

definition TRUSTCALL_INSTRUCTION :: string where
  "TRUSTCALL_INSTRUCTION =
     ''Reflect on following interaction. \<newline>\<newline>Use the provided tools to retain any necessary memories about the user. \<newline>\<newline>Use parallel tool calling to handle updates and insertions simultaneously:''"

text \<open>\<^verbatim>\<open>config["configurable"]["user_id"]\<close>: each subscript raises \<^verbatim>\<open>KeyError\<close> on a missing key.\<close>

definition get_user_id :: "config \<Rightarrow> error + string" where
  "get_user_id config =
     (case configurable config of
        None \<Rightarrow> Inl (KeyError ''configurable'')
      | Some conf \<Rightarrow>
          (case conf ''user_id'' of
             None \<Rightarrow> Inl (KeyError ''user_id'')
           | Some user_id \<Rightarrow> Inr user_id))"

text \<open>
  \<^verbatim>\<open>f"- {mem.value['content']}" for mem in memories\<close>: the first value without the key
  \<^verbatim>\<open>'content'\<close> raises \<^verbatim>\<open>KeyError\<close>.
\<close>

fun memory_lines :: "(json \<Rightarrow> string) \<Rightarrow> Item list \<Rightarrow> error + string list" where
  "memory_lines fmt [] = Inr []"
| "memory_lines fmt (mem # mems) =
     (case map_of (item_value mem) ''content'' of
        None \<Rightarrow> Inl (KeyError ''content'')
      | Some c \<Rightarrow>
          (case memory_lines fmt mems of
             Inl e \<Rightarrow> Inl e
           | Inr ls \<Rightarrow> Inr ((''- '' @ fmt c) # ls)))"

text \<open>\<^verbatim>\<open>sep.join(lines)\<close>.\<close>

fun join :: "string \<Rightarrow> string list \<Rightarrow> string" where
  "join sep [] = []"
| "join sep [x] = x"
| "join sep (x # y # ys) = x @ sep @ join sep (y # ys)"

text \<open>
  A node returns the state update (\<open>Some response\<close> for \<^verbatim>\<open>{"messages": response}\<close>, \<open>None\<close>
  for \<^verbatim>\<open>None\<close>) or the exception raised, and the world as it has left it.
  \<^verbatim>\<open>
  def call_model(state, config, store):
      user_id = config["configurable"]["user_id"]
      namespace = ("memories", user_id)
      memories = store.search(namespace)
      info = "\n".join(f"- {mem.value['content']}" for mem in memories)
      system_msg = MODEL_SYSTEM_MESSAGE.format(memory=info)
      response = model.invoke([SystemMessage(content=system_msg)]+state["messages"])
      return {"messages": response}
  \<close>
\<close>

definition call_model ::
  "'s externals \<Rightarrow> MessagesState \<Rightarrow> config \<Rightarrow> 's world \<Rightarrow> (error + message option) \<times> 's world" where
  "call_model X state config w =
     (case get_user_id config of
        Inl e \<Rightarrow> (Inl e, w)
      | Inr user_id \<Rightarrow>
          (case search_store X [''memories'', user_id] w of
             (mems, w1) \<Rightarrow>
               (case memory_lines (py_format X) mems of
                  Inl e \<Rightarrow> (Inl e, w1)
                | Inr ls \<Rightarrow>
                    (case invoke_model X
                            (SystemMessage (MODEL_SYSTEM_MESSAGE_format (join ''\<newline>'' ls))
                               # messages state) w1 of
                       (response, w2) \<Rightarrow> (Inr (Some response), w2)))))"

text \<open>
  \<^verbatim>\<open>
  existing_memories = ([(existing_item.key, tool_name, existing_item.value)
                        for existing_item in existing_items]
                        if existing_items
                        else None)
  \<close>
\<close>

definition existing_memories :: "string \<Rightarrow> Item list \<Rightarrow> existing_memory list option" where
  "existing_memories tool_name existing_items =
     (if existing_items \<noteq> []
      then Some (map (\<lambda>existing_item. (item_key existing_item, tool_name, item_value existing_item))
                  existing_items)
      else None)"

text \<open>\<^verbatim>\<open>rmeta.get(key, default)\<close>.\<close>

definition dict_get :: "(string \<rightharpoonup> string) \<Rightarrow> string \<Rightarrow> string \<Rightarrow> string" where
  "dict_get d k dflt = (case d k of Some v \<Rightarrow> v | None \<Rightarrow> dflt)"

text \<open>
  \<^verbatim>\<open>
  for r, rmeta in zip(result["responses"], result["response_metadata"]):
      store.put(namespace,
                rmeta.get("json_doc_id", str(uuid.uuid4())),
                r.model_dump(mode="json"))
  \<close>
  The default argument is evaluated before \<^verbatim>\<open>get\<close> is called, so a UUID is drawn for every
  pair, whether it is used or not. A \<open>put\<close> that raises ends the loop.
\<close>

fun save_memories ::
  "'s externals \<Rightarrow> namespace \<Rightarrow> (Memory \<times> (string \<rightharpoonup> string)) list \<Rightarrow> 's world
     \<Rightarrow> (error + unit) \<times> 's world" where
  "save_memories X namespace [] w = (Inr (), w)"
| "save_memories X namespace ((r, rmeta) # rest) w =
     (case new_uuid X w of
        (u, w1) \<Rightarrow>
          (case put_store X namespace (dict_get rmeta ''json_doc_id'' u) (model_dump r) w1 of
             (Inl e, w2) \<Rightarrow> (Inl e, w2)
           | (Inr ok, w2) \<Rightarrow> save_memories X namespace rest w2))"

text \<open>
  \<^verbatim>\<open>
  def write_memory(state, config, store):
      user_id = config["configurable"]["user_id"]
      namespace = ("memories", user_id)
      existing_items = store.search(namespace)
      tool_name = "Memory"
      existing_memories = (... if existing_items else None)
      updated_messages=list(merge_message_runs(
          messages=[SystemMessage(content=TRUSTCALL_INSTRUCTION)] + state["messages"]))
      result = trustcall_extractor.invoke({"messages": updated_messages,
                                          "existing": existing_memories})
      for r, rmeta in zip(result["responses"], result["response_metadata"]):
          store.put(...)
  \<close>
\<close>

definition write_memory ::
  "'s externals \<Rightarrow> MessagesState \<Rightarrow> config \<Rightarrow> 's world \<Rightarrow> (error + message option) \<times> 's world" where
  "write_memory X state config w =
     (case get_user_id config of
        Inl e \<Rightarrow> (Inl e, w)
      | Inr user_id \<Rightarrow>
          (case search_store X [''memories'', user_id] w of
             (existing_items, w1) \<Rightarrow>
               (case invoke_extractor X
                       (merge_message_runs X
                          (SystemMessage TRUSTCALL_INSTRUCTION # messages state))
                       (existing_memories ''Memory'' existing_items) w1 of
                  (result, w2) \<Rightarrow>
                    (case save_memories X [''memories'', user_id]
                            (zip (responses result) (response_metadata result)) w2 of
                       (Inl e, w3) \<Rightarrow> (Inl e, w3)
                     | (Inr ok, w3) \<Rightarrow> (Inr None, w3)))))"

section \<open>The graph\<close>

type_synonym 's node =
  "'s externals \<Rightarrow> MessagesState \<Rightarrow> config \<Rightarrow> 's world \<Rightarrow> (error + message option) \<times> 's world"

text \<open>What the builder collects: the named nodes and the directed edges, in the order added.\<close>

record 's state_graph =
  nodes :: "(string \<times> 's node) list"
  edges :: "(string \<times> string) list"

definition START :: string where
  "START = ''__start__''"

definition END :: string where
  "END = ''__end__''"

definition StateGraph :: "'s state_graph" where
  "StateGraph = \<lparr>nodes = [], edges = []\<rparr>"

definition add_node :: "string \<Rightarrow> 's node \<Rightarrow> 's state_graph \<Rightarrow> 's state_graph" where
  "add_node name action g = g\<lparr>nodes := nodes g @ [(name, action)]\<rparr>"

definition add_edge :: "string \<Rightarrow> string \<Rightarrow> 's state_graph \<Rightarrow> 's state_graph" where
  "add_edge start_key end_key g = g\<lparr>edges := edges g @ [(start_key, end_key)]\<rparr>"

text \<open>
  \<^verbatim>\<open>
  builder = StateGraph(MessagesState)
  builder.add_node("call_model", call_model)
  builder.add_node("write_memory", write_memory)
  builder.add_edge(START, "call_model")
  builder.add_edge("call_model", "write_memory")
  builder.add_edge("write_memory", END)
  \<close>
\<close>

definition builder :: "'s state_graph" where
  "builder =
     add_edge ''write_memory'' END
       (add_edge ''call_model'' ''write_memory''
          (add_edge START ''call_model''
             (add_node ''write_memory'' write_memory
                (add_node ''call_model'' call_model StateGraph))))"

text \<open>A returned update goes through the reducer of \<^verbatim>\<open>MessagesState\<close>; \<^verbatim>\<open>None\<close> changes nothing.\<close>

definition apply_update :: "'s externals \<Rightarrow> MessagesState \<Rightarrow> message option \<Rightarrow> MessagesState" where
  "apply_update X state upd =
     (case upd of
        None \<Rightarrow> state
      | Some m \<Rightarrow> state\<lparr>messages := add_messages X (messages state) m\<rparr>)"

text \<open>
  Modelled from the spec: the run of the compiled graph, which the external orchestration
  library performs and the notebook does not contain ("a two-node execution graph ...
  executed sequentially per conversation turn"). A run has a number of steps. In a step
  the run follows the edge out of its position; at \<^verbatim>\<open>END\<close> it is over; otherwise it runs
  the node the edge leads to, applies the update the node returns and goes on from that
  node. An exception raised by a node ends the run with that exception. A run that has
  used up its steps before it is over ends with \<^verbatim>\<open>GraphRecursionError\<close>. The log records
  when a node starts and when it has returned.
\<close>

fun run_from ::
  "nat \<Rightarrow> 's state_graph \<Rightarrow> 's externals \<Rightarrow> config \<Rightarrow> string \<Rightarrow> MessagesState \<Rightarrow> 's world
     \<Rightarrow> (error + MessagesState) \<times> 's world" where
  "run_from 0 g X config cur state w = (Inl GraphRecursionError, w)"
| "run_from (Suc fuel) g X config cur state w =
     (case map_of (edges g) cur of
        None \<Rightarrow> (Inr state, w)
      | Some nxt \<Rightarrow>
          if nxt = END then (Inr state, w)
          else
            (case map_of (nodes g) nxt of
               None \<Rightarrow> (Inl (KeyError nxt), w)
             | Some action \<Rightarrow>
                 (case action X state config (w\<lparr>log := log w @ [NodeStart nxt]\<rparr>) of
                    (Inl e, w1) \<Rightarrow> (Inl e, w1)
                  | (Inr upd, w1) \<Rightarrow>
                      run_from fuel g X config nxt (apply_update X state upd)
                        (w1\<lparr>log := log w1 @ [NodeEnd nxt]\<rparr>))))"

text \<open>
  Modelled from the spec: one conversation turn, \<^verbatim>\<open>graph.stream(..., config)\<close> run to its end
  on the graph compiled with a checkpointer,
  \<^verbatim>\<open>builder.compile(checkpointer=within_thread_memory, store=across_thread_memory)\<close>.
  The library first examines the config (\<open>admit_run\<close>): it raises before any node runs,
  or it gives the run its number of steps. \<open>state\<close> is the state at the start of the turn:
  the messages the checkpointer has kept for the thread, with the input added.
\<close>

definition invoke_graph ::
  "'s externals \<Rightarrow> config \<Rightarrow> MessagesState \<Rightarrow> 's world \<Rightarrow> (error + MessagesState) \<times> 's world" where
  "invoke_graph X config state w =
     (case admit_run X config of
        Inl e \<Rightarrow> (Inl e, w)
      | Inr steps \<Rightarrow> run_from steps builder X config START state w)"

section \<open>What the store holds\<close>

text \<open>
  The effect of a logged call on the store: only a \<open>put\<close> that returns changes it.
\<close>

fun apply_event :: "'s externals \<Rightarrow> 's \<Rightarrow> event \<Rightarrow> 's" where
  "apply_event X s (Put ns k v) = (case store_put X s ns k v of Inl e \<Rightarrow> s | Inr s' \<Rightarrow> s')"
| "apply_event X s e = s"

text \<open>
  The \<open>put\<close> calls of the loop over the pairs \<open>ps\<close>, when \<open>n\<close> UUIDs have been drawn
  before it: the pair at position \<open>i\<close> draws the UUID number \<open>n + i\<close>.
\<close>

definition memory_puts ::
  "'s externals \<Rightarrow> namespace \<Rightarrow> nat \<Rightarrow> (Memory \<times> (string \<rightharpoonup> string)) list \<Rightarrow> event list" where
  "memory_puts X ns n ps =
     map (\<lambda>(i, r, rmeta). Put ns (dict_get rmeta ''json_doc_id'' (uuid4 X i)) (model_dump r))
       (enumerate n ps)"

text \<open>
  The messages \<^verbatim>\<open>write_memory\<close> sends to the extractor, and the (response, metadata) pairs
  its loop runs over, when the store is \<open>s\<close> at its start.
\<close>

definition extractor_messages :: "'s externals \<Rightarrow> MessagesState \<Rightarrow> message list" where
  "extractor_messages X state =
     merge_message_runs X (SystemMessage TRUSTCALL_INSTRUCTION # messages state)"

definition extracted_pairs ::
  "'s externals \<Rightarrow> MessagesState \<Rightarrow> string \<Rightarrow> 's \<Rightarrow> (Memory \<times> (string \<rightharpoonup> string)) list" where
  "extracted_pairs X state user_id s =
     zip (responses (extractor_invoke X (extractor_messages X state)
                       (existing_memories ''Memory'' (store_search X s [''memories'', user_id]))))
         (response_metadata (extractor_invoke X (extractor_messages X state)
                       (existing_memories ''Memory'' (store_search X s [''memories'', user_id]))))"


definition put_is_local :: "'s externals \<Rightarrow> bool" where
  "put_is_local X =
     (\<forall>s ns k v s' ns' k'. store_put X s ns k v = Inr s' \<and> ns' \<noteq> ns \<longrightarrow>
        store_get X s' ns' k' = store_get X s ns' k')"

definition search_is_local :: "'s externals \<Rightarrow> bool" where
  "search_is_local X = (\<forall>s ns. \<forall>i \<in> set (store_search X s ns). prefix ns (item_namespace i))"


section \<open>A reference instance of the external components\<close>

text \<open>
  To run the nodes on concrete inputs. The store is the list of its items: \<open>search\<close>
  lists the first ten items under a namespace, \<open>put\<close> replaces the value under an
  existing (namespace, key) and appends otherwise, and rejects, as the library's stores
  do, a namespace that is empty, starts with the label \<^verbatim>\<open>langgraph\<close> or has a label that
  is empty or contains a period. The model has a fixed answer. The extractor updates the
  first record it is given and adds a new one; given no record it adds two. The graph
  is admitted when the config names a thread and its recursion limit is at least 1, with
  that many steps, 10007 when the config sets no limit.
\<close>

definition valid_label :: "string \<Rightarrow> bool" where
  "valid_label l = (l \<noteq> [] \<and> CHR ''.'' \<notin> set l)"

definition valid_namespace :: "namespace \<Rightarrow> bool" where
  "valid_namespace ns =
     (case ns of [] \<Rightarrow> False | l # ls \<Rightarrow> l \<noteq> ''langgraph'' \<and> list_all valid_label ns)"

fun list_upsert :: "Item list \<Rightarrow> namespace \<Rightarrow> string \<Rightarrow> pydict \<Rightarrow> Item list" where
  "list_upsert [] ns k v = [\<lparr>item_namespace = ns, item_key = k, item_value = v\<rparr>]"
| "list_upsert (i # rest) ns k v =
     (if item_namespace i = ns \<and> item_key i = k then i\<lparr>item_value := v\<rparr> # rest
      else i # list_upsert rest ns k v)"

definition list_put :: "Item list \<Rightarrow> namespace \<Rightarrow> string \<Rightarrow> pydict \<Rightarrow> error + Item list" where
  "list_put s ns k v = (if valid_namespace ns then Inr (list_upsert s ns k v) else Inl ValueError)"

fun list_get :: "Item list \<Rightarrow> namespace \<Rightarrow> string \<Rightarrow> pydict option" where
  "list_get [] ns k = None"
| "list_get (i # rest) ns k =
     (if item_namespace i = ns \<and> item_key i = k then Some (item_value i)
      else list_get rest ns k)"

definition list_search :: "Item list \<Rightarrow> namespace \<Rightarrow> Item list" where
  "list_search s ns = take 10 (filter (\<lambda>i. prefix ns (item_namespace i)) s)"

fun ref_extractor :: "message list \<Rightarrow> existing_memory list option \<Rightarrow> extraction" where
  "ref_extractor msgs (Some ((k, tool, v) # rest)) =
     \<lparr>responses = [\<lparr>content = ''User likes to bike in San Francisco.''\<rparr>,
                   \<lparr>content = ''User enjoys bakeries.''\<rparr>],
      response_metadata = [[''id'' \<mapsto> ''call_1'', ''json_doc_id'' \<mapsto> k],
                           [''id'' \<mapsto> ''call_2'']]\<rparr>"
| "ref_extractor msgs existing =
     \<lparr>responses = [\<lparr>content = ''User is called Lance.''\<rparr>,
                   \<lparr>content = ''User likes to bike.''\<rparr>],
      response_metadata = [[''id'' \<mapsto> ''call_1''], [''id'' \<mapsto> ''call_2'']]\<rparr>"

fun ref_format :: "json \<Rightarrow> string" where
  "ref_format (JStr s) = s"
| "ref_format j = ''?''"

definition ref_admit :: "config \<Rightarrow> error + nat" where
  "ref_admit config =
     (case configurable config of
        None \<Rightarrow> Inl ValueError
      | Some conf \<Rightarrow>
          (case conf ''thread_id'' of
             None \<Rightarrow> Inl ValueError
           | Some thread_id \<Rightarrow>
               (case recursion_limit config of
                  None \<Rightarrow> Inr 10007
                | Some n \<Rightarrow> if n < 1 then Inl ValueError else Inr (nat n))))"

definition ref_externals :: "Item list externals" where
  "ref_externals =
     \<lparr>store_search = list_search,
      store_get = list_get,
      store_put = list_put,
      model_invoke = (\<lambda>msgs. AIMessage ''Hello!''),
      extractor_invoke = ref_extractor,
      merge_message_runs = (\<lambda>msgs. msgs),
      add_messages = (\<lambda>msgs m. msgs @ [m]),
      uuid4 = (\<lambda>n. ''uuid-'' @ replicate n (CHR ''x'')),
      py_format = ref_format,
      admit_run = ref_admit\<rparr>"

definition ref_config :: config where
  "ref_config =
     \<lparr>configurable = Some [''thread_id'' \<mapsto> ''1'', ''user_id'' \<mapsto> ''1''],
      recursion_limit = None\<rparr>"

definition ref_state :: MessagesState where
  "ref_state = \<lparr>messages = [HumanMessage ''I like to bike around San Francisco'']\<rparr>"

definition ref_world :: "Item list world" where
  "ref_world =
     \<lparr>store = [\<lparr>item_namespace = [''memories'', ''1''], item_key = ''k0'',
                item_value = [(''content'', JStr ''User likes to bike.'')]\<rparr>],
      uuid_calls = 0,
      log = []\<rparr>"


section \<open>Properties of the environment and of \<^verbatim>\<open>_set_env\<close>\<close>

lemma env_get_empty: "env_get env_empty k = None"
  by transfer simp

lemma env_get_put:
  "env_get (env_put k v e) k' =
     (if valid_name k \<and> valid_value v \<and> k' = k then Some v else env_get e k')"
  by transfer simp

lemma env_get_valid: "env_get e k = Some v \<Longrightarrow> valid_name k \<and> valid_value v"
  by transfer simp

lemma env_put_same: "env_get e k = Some v \<Longrightarrow> env_put k v e = e"
  by transfer (auto simp: fun_upd_idem)

lemma environ_setitem_valid:
  assumes "valid_name key" and "valid_value val"
  shows "environ_setitem key val s = (Inr (), s\<lparr>os_environ := env_put key val (os_environ s)\<rparr>)"
  using assms by (simp add: environ_setitem_def valid_name_def valid_value_def)

lemma environ_setitem_returns:
  assumes "environ_setitem key val s = (Inr (), s')"
  shows "valid_name key \<and> valid_value val \<and>
         s' = s\<lparr>os_environ := env_put key val (os_environ s)\<rparr>"
  using assms
  by (auto simp: environ_setitem_def valid_name_def valid_value_def split: if_splits)


lemma set_env_already_set:
  assumes "environ s var = Some v" and "v \<noteq> []"
  shows "set_env var s = (Inr (), s)"
proof -
  have get: "env_get (os_environ s) var = Some v"
    using assms(1) by (simp add: environ_def)
  have "valid_name var \<and> valid_value v"
    using get by (rule env_get_valid)
  then have "environ_setitem var v s = (Inr (), s\<lparr>os_environ := env_put var v (os_environ s)\<rparr>)"
    by (simp add: environ_setitem_valid)
  then show ?thesis
    using assms by (simp add: set_env_def env_put_same [OF get])
qed


lemma set_env_after_prompt:
  assumes "environ s var = None \<or> environ s var = Some []"
    and "set_env var s = (Inr (), s')"
  shows "\<exists>l ls. tty_input s = l # ls \<and> environ s' var = Some l"
proof (cases "tty_input s")
  case Nil
  then show ?thesis
    using assms by (auto simp: set_env_def getpass_def)
next
  case (Cons l ls)
  let ?s1 = "s\<lparr>tty_input := ls, prompts := prompts s @ [var @ '': '']\<rparr>"
  have "environ_setitem var l ?s1 = (Inr (), s')"
    using assms Cons by (auto simp: set_env_def getpass_def)
  then have "valid_name var \<and> valid_value l \<and>
             s' = ?s1\<lparr>os_environ := env_put var l (os_environ ?s1)\<rparr>"
    by (rule environ_setitem_returns)
  then have "environ s' var = Some l"
    by (simp add: environ_def env_get_put)
  then show ?thesis
    using Cons by simp
qed

section \<open>The loop over the extracted memories\<close>

lemma events_since_append: "log w' = log w @ es \<Longrightarrow> events_since w w' = es"
  by (simp add: events_since_def)

lemma events_since_self: "events_since w w = []"
  by (simp add: events_since_def)

lemma memory_puts_Nil: "memory_puts X ns n [] = []"
  by (simp add: memory_puts_def)

lemma memory_puts_Cons:
  "memory_puts X ns n ((r, rmeta) # ps) =
     Put ns (dict_get rmeta ''json_doc_id'' (uuid4 X n)) (model_dump r)
       # memory_puts X ns (Suc n) ps"
  by (simp add: memory_puts_def)




lemma memory_puts_member:
  assumes "e \<in> set (memory_puts X ns n ps)"
  shows "\<exists>k r. e = Put ns k (model_dump r)"
  using assms by (auto simp: memory_puts_def)


lemma memory_puts_take_no_extractor:
  "filter is_extractor_invoke (take m (memory_puts X ns n ps)) = []"
  by (auto simp: filter_empty_conv dest!: in_set_takeD memory_puts_member)

lemma memory_puts_take_no_node:
  "filter is_node_event (take m (memory_puts X ns n ps)) = []"
  by (auto simp: filter_empty_conv dest!: in_set_takeD memory_puts_member)

lemma save_memories_effect:
  "\<exists>m \<le> length ps.
     log (snd (save_memories X ns ps w)) = log w @ take m (memory_puts X ns (uuid_calls w) ps) \<and>
     store (snd (save_memories X ns ps w)) =
       foldl (apply_event X) (store w) (take m (memory_puts X ns (uuid_calls w) ps)) \<and>
     (fst (save_memories X ns ps w) = Inr () \<longrightarrow> m = length ps) \<and>
     (isl (fst (save_memories X ns ps w)) \<longrightarrow> 0 < m)"
proof (induction ps arbitrary: w)
  case Nil
  then show ?case by (simp add: memory_puts_Nil)
next
  case (Cons p ps)
  obtain r rmeta where p: "p = (r, rmeta)" by (cases p)
  let ?k = "dict_get rmeta ''json_doc_id'' (uuid4 X (uuid_calls w))"
  let ?P = "Put ns ?k (model_dump r)"
  show ?case
  proof (cases "store_put X (store w) ns ?k (model_dump r)")
    case (Inl e)
    have "log (snd (save_memories X ns (p # ps) w)) = log w @ [?P]"
      and "store (snd (save_memories X ns (p # ps) w)) = store w"
      and "fst (save_memories X ns (p # ps) w) = Inl e"
      using Inl by (simp_all add: p new_uuid_def put_store_def)
    then show ?thesis
      using Inl by (intro exI [of _ 1]) (simp add: p memory_puts_Cons)
  next
    case (Inr s')
    let ?w2 = "w\<lparr>uuid_calls := Suc (uuid_calls w), store := s', log := log w @ [?P]\<rparr>"
    have step: "save_memories X ns (p # ps) w = save_memories X ns ps ?w2"
      using Inr by (simp add: p new_uuid_def put_store_def)
    obtain m where m: "m \<le> length ps"
      "log (snd (save_memories X ns ps ?w2)) =
         log ?w2 @ take m (memory_puts X ns (uuid_calls ?w2) ps)"
      "store (snd (save_memories X ns ps ?w2)) =
         foldl (apply_event X) (store ?w2) (take m (memory_puts X ns (uuid_calls ?w2) ps))"
      "fst (save_memories X ns ps ?w2) = Inr () \<longrightarrow> m = length ps"
      using Cons.IH [of ?w2] by blast
    show ?thesis
      unfolding step using m Inr
      by (intro exI [of _ "Suc m"]) (simp add: p memory_puts_Cons)
  qed
qed



section \<open>The nodes, case by case\<close>

lemma call_model_raises_on_config:
  assumes "get_user_id config = Inl e"
  shows "call_model X state config w = (Inl e, w)"
  using assms by (simp add: call_model_def)

lemma call_model_raises_on_value:
  assumes "get_user_id config = Inr user_id"
    and "memory_lines (py_format X) (store_search X (store w) [''memories'', user_id]) = Inl e"
  shows "call_model X state config w =
           (Inl e, w\<lparr>log := log w @ [Search [''memories'', user_id],
                         Found (store_search X (store w) [''memories'', user_id])]\<rparr>)"
  using assms by (simp add: call_model_def search_store_def)

lemma call_model_returns:
  assumes "get_user_id config = Inr user_id"
    and "memory_lines (py_format X) (store_search X (store w) [''memories'', user_id]) = Inr ls"
  shows "call_model X state config w =
     (Inr (Some (model_invoke X
                   (SystemMessage (MODEL_SYSTEM_MESSAGE_format (join ''\<newline>'' ls)) # messages state))),
      w\<lparr>log := log w @ [Search [''memories'', user_id],
             Found (store_search X (store w) [''memories'', user_id]),
             ModelInvoke (SystemMessage (MODEL_SYSTEM_MESSAGE_format (join ''\<newline>'' ls))
                            # messages state)]\<rparr>)"
  using assms by (simp add: call_model_def search_store_def invoke_model_def)

lemma call_model_cases:
  obtains (config) e where "get_user_id config = Inl e"
      and "call_model X state config w = (Inl e, w)"
  | (val) user_id e where "get_user_id config = Inr user_id"
      and "call_model X state config w =
           (Inl e, w\<lparr>log := log w @ [Search [''memories'', user_id],
                         Found (store_search X (store w) [''memories'', user_id])]\<rparr>)"
  | (ret) user_id msgs where "get_user_id config = Inr user_id"
      and "call_model X state config w =
           (Inr (Some (model_invoke X msgs)),
            w\<lparr>log := log w @ [Search [''memories'', user_id],
                   Found (store_search X (store w) [''memories'', user_id]),
                   ModelInvoke msgs]\<rparr>)"
proof (cases "get_user_id config")
  case (Inl e)
  then show ?thesis
    using call_model_raises_on_config [OF Inl] config by blast
next
  case (Inr user_id)
  show ?thesis
  proof (cases "memory_lines (py_format X) (store_search X (store w) [''memories'', user_id])")
    case (Inl e)
    then show ?thesis
      using call_model_raises_on_value [OF Inr Inl] Inr val by blast
  next
    case ls: (Inr ls)
    then show ?thesis
      using call_model_returns [OF Inr ls] Inr ret by blast
  qed
qed

lemma call_model_store: "store (snd (call_model X state config w)) = store w"
  by (rule call_model_cases [of config X state w]) simp_all

lemma call_model_log:
  "log (snd (call_model X state config w)) =
     log w @ events_since w (snd (call_model X state config w))"
  by (rule call_model_cases [of config X state w]) (simp_all add: events_since_def)

lemma call_model_no_node_events:
  "filter is_node_event (events_since w (snd (call_model X state config w))) = []"
  by (rule call_model_cases [of config X state w]) (simp_all add: events_since_def)

lemma call_model_events_namespace:
  assumes "get_user_id config = Inr user_id"
    and "e \<in> set (events_since w (snd (call_model X state config w)))"
  shows "accessed_namespace e = None \<or> accessed_namespace e = Some [''memories'', user_id]"
  using assms
  by (rule_tac call_model_cases [of config X state w]) (auto simp: events_since_def)

lemma call_model_found:
  assumes "get_user_id config = Inr user_id"
    and "Found items \<in> set (events_since w (snd (call_model X state config w)))"
  shows "items = store_search X (store w) [''memories'', user_id]"
  using assms
  by (rule_tac call_model_cases [of config X state w]) (auto simp: events_since_def)

lemma write_memory_raises_on_config:
  assumes "get_user_id config = Inl e"
  shows "write_memory X state config w = (Inl e, w)"
  using assms by (simp add: write_memory_def)

lemma write_memory_unfold:
  assumes "get_user_id config = Inr user_id"
  shows "write_memory X state config w =
     (case save_memories X [''memories'', user_id]
             (extracted_pairs X state user_id (store w))
             (w\<lparr>log := log w @ [Search [''memories'', user_id],
                    Found (store_search X (store w) [''memories'', user_id]),
                    ExtractorInvoke (extractor_messages X state)
                      (existing_memories ''Memory''
                         (store_search X (store w) [''memories'', user_id]))]\<rparr>) of
        (Inl e, w3) \<Rightarrow> (Inl e, w3)
      | (Inr ok, w3) \<Rightarrow> (Inr None, w3))"
  using assms
  by (simp add: write_memory_def search_store_def invoke_extractor_def extracted_pairs_def
        extractor_messages_def)

lemma write_memory_effect:
  assumes "get_user_id config = Inr user_id"
  shows "\<exists>m \<le> length (extracted_pairs X state user_id (store w)).
     log (snd (write_memory X state config w)) =
       log w @ [Search [''memories'', user_id],
                Found (store_search X (store w) [''memories'', user_id]),
                ExtractorInvoke (extractor_messages X state)
                  (existing_memories ''Memory''
                     (store_search X (store w) [''memories'', user_id]))]
             @ take m (memory_puts X [''memories'', user_id] (uuid_calls w)
                         (extracted_pairs X state user_id (store w))) \<and>
     store (snd (write_memory X state config w)) =
       foldl (apply_event X) (store w)
         (take m (memory_puts X [''memories'', user_id] (uuid_calls w)
                    (extracted_pairs X state user_id (store w)))) \<and>
     (fst (write_memory X state config w) = Inr None \<longrightarrow>
        m = length (extracted_pairs X state user_id (store w))) \<and>
     (isl (fst (write_memory X state config w)) \<longrightarrow> 0 < m)"
proof -
  let ?w2 = "w\<lparr>log := log w @ [Search [''memories'', user_id],
                    Found (store_search X (store w) [''memories'', user_id]),
                    ExtractorInvoke (extractor_messages X state)
                      (existing_memories ''Memory''
                         (store_search X (store w) [''memories'', user_id]))]\<rparr>"
  let ?ps = "extracted_pairs X state user_id (store w)"
  let ?R = "save_memories X [''memories'', user_id] ?ps ?w2"
  obtain m where m: "m \<le> length ?ps"
    "log (snd ?R) = log ?w2 @ take m (memory_puts X [''memories'', user_id] (uuid_calls ?w2) ?ps)"
    "store (snd ?R) = foldl (apply_event X) (store ?w2)
        (take m (memory_puts X [''memories'', user_id] (uuid_calls ?w2) ?ps))"
    "fst ?R = Inr () \<longrightarrow> m = length ?ps"
    "isl (fst ?R) \<longrightarrow> 0 < m"
    using save_memories_effect [of ?ps X "[''memories'', user_id]" ?w2] by blast
  have wm: "write_memory X state config w =
      (case ?R of (Inl e, w3) \<Rightarrow> (Inl e, w3) | (Inr ok, w3) \<Rightarrow> (Inr None, w3))"
    by (rule write_memory_unfold [OF assms])
  have snd_eq: "snd (write_memory X state config w) = snd ?R"
    unfolding wm by (cases ?R) (auto split: sum.splits)
  have fst_eq: "fst (write_memory X state config w) = Inr None \<longleftrightarrow> fst ?R = Inr ()"
    "isl (fst (write_memory X state config w)) \<longleftrightarrow> isl (fst ?R)"
    unfolding wm by (cases ?R; auto split: sum.splits)+
  show ?thesis
    using m unfolding snd_eq fst_eq by (intro exI [of _ m]) simp
qed

lemma write_memory_events:
  assumes "get_user_id config = Inr user_id"
  shows "\<exists>m \<le> length (extracted_pairs X state user_id (store w)).
     events_since w (snd (write_memory X state config w)) =
       [Search [''memories'', user_id],
        Found (store_search X (store w) [''memories'', user_id]),
        ExtractorInvoke (extractor_messages X state)
          (existing_memories ''Memory'' (store_search X (store w) [''memories'', user_id]))]
       @ take m (memory_puts X [''memories'', user_id] (uuid_calls w)
                   (extracted_pairs X state user_id (store w))) \<and>
     store (snd (write_memory X state config w)) =
       foldl (apply_event X) (store w)
         (take m (memory_puts X [''memories'', user_id] (uuid_calls w)
                    (extracted_pairs X state user_id (store w)))) \<and>
     (fst (write_memory X state config w) = Inr None \<longrightarrow>
        m = length (extracted_pairs X state user_id (store w))) \<and>
     (isl (fst (write_memory X state config w)) \<longrightarrow> 0 < m)"
proof -
  obtain m where m: "m \<le> length (extracted_pairs X state user_id (store w))"
    "log (snd (write_memory X state config w)) =
       log w @ [Search [''memories'', user_id],
                Found (store_search X (store w) [''memories'', user_id]),
                ExtractorInvoke (extractor_messages X state)
                  (existing_memories ''Memory''
                     (store_search X (store w) [''memories'', user_id]))]
             @ take m (memory_puts X [''memories'', user_id] (uuid_calls w)
                         (extracted_pairs X state user_id (store w)))"
    "store (snd (write_memory X state config w)) =
       foldl (apply_event X) (store w)
         (take m (memory_puts X [''memories'', user_id] (uuid_calls w)
                    (extracted_pairs X state user_id (store w))))"
    "fst (write_memory X state config w) = Inr None \<longrightarrow>
        m = length (extracted_pairs X state user_id (store w))"
    "isl (fst (write_memory X state config w)) \<longrightarrow> 0 < m"
    using write_memory_effect [OF assms, of X state w] by blast
  have "events_since w (snd (write_memory X state config w)) =
       [Search [''memories'', user_id],
        Found (store_search X (store w) [''memories'', user_id]),
        ExtractorInvoke (extractor_messages X state)
          (existing_memories ''Memory'' (store_search X (store w) [''memories'', user_id]))]
       @ take m (memory_puts X [''memories'', user_id] (uuid_calls w)
                   (extracted_pairs X state user_id (store w)))"
    by (rule events_since_append) (simp add: m(2))
  then show ?thesis
    using m by blast
qed

lemma write_memory_log:
  "log (snd (write_memory X state config w)) =
     log w @ events_since w (snd (write_memory X state config w))"
proof (cases "get_user_id config")
  case (Inl e)
  then show ?thesis
    by (simp add: write_memory_raises_on_config events_since_self)
next
  case (Inr user_id)
  obtain m where
    "log (snd (write_memory X state config w)) =
       log w @ [Search [''memories'', user_id],
                Found (store_search X (store w) [''memories'', user_id]),
                ExtractorInvoke (extractor_messages X state)
                  (existing_memories ''Memory''
                     (store_search X (store w) [''memories'', user_id]))]
             @ take m (memory_puts X [''memories'', user_id] (uuid_calls w)
                         (extracted_pairs X state user_id (store w)))"
    using write_memory_effect [OF Inr, of X state w] by blast
  then show ?thesis
    by (simp add: events_since_def)
qed

lemma write_memory_no_node_events:
  "filter is_node_event (events_since w (snd (write_memory X state config w))) = []"
proof (cases "get_user_id config")
  case (Inl e)
  then show ?thesis
    by (simp add: write_memory_raises_on_config events_since_self)
next
  case (Inr user_id)
  obtain m where
    "events_since w (snd (write_memory X state config w)) =
       [Search [''memories'', user_id],
        Found (store_search X (store w) [''memories'', user_id]),
        ExtractorInvoke (extractor_messages X state)
          (existing_memories ''Memory'' (store_search X (store w) [''memories'', user_id]))]
       @ take m (memory_puts X [''memories'', user_id] (uuid_calls w)
                   (extracted_pairs X state user_id (store w)))"
    using write_memory_events [OF Inr, of X state w] by blast
  then show ?thesis
    by (simp add: memory_puts_take_no_node)
qed

lemma write_memory_result:
  "fst (write_memory X state config w) = Inr upd \<Longrightarrow> upd = None"
  by (cases "get_user_id config")
     (auto simp: write_memory_raises_on_config write_memory_unfold split: prod.splits sum.splits)



lemma write_memory_events_namespace:
  assumes "get_user_id config = Inr user_id"
    and "e \<in> set (events_since w (snd (write_memory X state config w)))"
  shows "accessed_namespace e = None \<or> accessed_namespace e = Some [''memories'', user_id]"
proof -
  obtain m where
    "events_since w (snd (write_memory X state config w)) =
       [Search [''memories'', user_id],
        Found (store_search X (store w) [''memories'', user_id]),
        ExtractorInvoke (extractor_messages X state)
          (existing_memories ''Memory'' (store_search X (store w) [''memories'', user_id]))]
       @ take m (memory_puts X [''memories'', user_id] (uuid_calls w)
                   (extracted_pairs X state user_id (store w)))"
    using write_memory_events [OF assms(1), of X state w] by blast
  then show ?thesis
    using assms(2) by (auto dest!: in_set_takeD memory_puts_member)
qed

lemma write_memory_found:
  assumes "get_user_id config = Inr user_id"
    and "Found items \<in> set (events_since w (snd (write_memory X state config w)))"
  shows "items = store_search X (store w) [''memories'', user_id]"
proof -
  obtain m where
    "events_since w (snd (write_memory X state config w)) =
       [Search [''memories'', user_id],
        Found (store_search X (store w) [''memories'', user_id]),
        ExtractorInvoke (extractor_messages X state)
          (existing_memories ''Memory'' (store_search X (store w) [''memories'', user_id]))]
       @ take m (memory_puts X [''memories'', user_id] (uuid_calls w)
                   (extracted_pairs X state user_id (store w)))"
    using write_memory_events [OF assms(1), of X state w] by blast
  then show ?thesis
    using assms(2) by (auto dest!: in_set_takeD memory_puts_member)
qed

section \<open>What the puts do to the store\<close>



lemma puts_are_local:
  assumes "put_is_local X"
    and "\<And>e. e \<in> set es \<Longrightarrow> \<exists>k v. e = Put ns k v"
    and "ns' \<noteq> ns"
  shows "store_get X (foldl (apply_event X) s es) ns' k' = store_get X s ns' k'"
  using assms(2)
proof (induction es arbitrary: s)
  case Nil
  then show ?case by simp
next
  case (Cons e es)
  obtain k v where e: "e = Put ns k v"
    using Cons.prems [of e] by auto
  have "store_get X (apply_event X s e) ns' k' = store_get X s ns' k'"
  proof (cases "store_put X s ns k v")
    case (Inl err)
    then show ?thesis by (simp add: e)
  next
    case (Inr s')
    then show ?thesis
      using assms(1,3) unfolding put_is_local_def by (simp add: e)
  qed
  then show ?case
    using Cons.IH [of "apply_event X s e"] Cons.prems by simp
qed

lemma write_memory_is_local:
  assumes "get_user_id config = Inr user_id"
    and "put_is_local X"
    and "ns' \<noteq> [''memories'', user_id]"
  shows "store_get X (store (snd (write_memory X state config w))) ns' k' =
           store_get X (store w) ns' k'"
proof -
  obtain m where
    st: "store (snd (write_memory X state config w)) =
       foldl (apply_event X) (store w)
         (take m (memory_puts X [''memories'', user_id] (uuid_calls w)
                    (extracted_pairs X state user_id (store w))))"
    using write_memory_events [OF assms(1), of X state w] by blast
  show ?thesis
    unfolding st
    by (rule puts_are_local [OF assms(2) _ assms(3)])
       (auto dest!: in_set_takeD memory_puts_member)
qed

lemma other_user_not_prefix:
  assumes "prefix [''memories'', user_id] ns" and "other \<noteq> user_id"
  shows "\<not> prefix [''memories'', other] ns"
  using assms by (auto simp: prefix_def)

section \<open>A turn of the graph\<close>

lemma builder_unfolded [code]:
  "builder =
     \<lparr>nodes = [(''call_model'', call_model), (''write_memory'', write_memory)],
      edges = [(START, ''call_model''), (''call_model'', ''write_memory''),
               (''write_memory'', END)]\<rparr>"
  by (simp add: builder_def add_edge_def add_node_def StateGraph_def)

lemma apply_update_None: "apply_update X state None = state"
  by (simp add: apply_update_def)

lemma run_builder:
  "run_from steps builder X config START state w =
     (if steps = 0 then (Inl GraphRecursionError, w)
      else
        (case call_model X state config (w\<lparr>log := log w @ [NodeStart ''call_model'']\<rparr>) of
           (Inl e, w1) \<Rightarrow> (Inl e, w1)
         | (Inr upd, w1) \<Rightarrow>
             if steps = 1 then (Inl GraphRecursionError, w1\<lparr>log := log w1 @ [NodeEnd ''call_model'']\<rparr>)
             else
               (case write_memory X (apply_update X state upd) config
                       (w1\<lparr>log := log w1 @ [NodeEnd ''call_model'', NodeStart ''write_memory'']\<rparr>) of
                  (Inl e, w2) \<Rightarrow> (Inl e, w2)
                | (Inr upd2, w2) \<Rightarrow>
                    if steps = 2
                    then (Inl GraphRecursionError, w2\<lparr>log := log w2 @ [NodeEnd ''write_memory'']\<rparr>)
                    else (Inr (apply_update X (apply_update X state upd) upd2),
                          w2\<lparr>log := log w2 @ [NodeEnd ''write_memory'']\<rparr>))))"
proof -
  consider "steps = 0" | "steps = Suc 0" | "steps = Suc (Suc 0)"
    | n where "steps = Suc (Suc (Suc n))"
    by (metis not0_implies_Suc)
  then show ?thesis
    by cases
       (simp_all add: builder_unfolded START_def END_def split: prod.splits sum.splits)
qed

section \<open>The reference instance keeps the store's contract\<close>

lemma list_get_upsert:
  "list_get (list_upsert s ns k v) ns' k' =
     (if ns' = ns \<and> k' = k then Some v else list_get s ns' k')"
  by (induction s) auto


lemma ref_put_is_local: "put_is_local ref_externals"
  by (auto simp: put_is_local_def ref_externals_def list_put_def list_get_upsert
      split: if_splits)

lemma ref_search_is_local: "search_is_local ref_externals"
  by (auto simp: search_is_local_def ref_externals_def list_search_def dest: in_set_takeD)



section \<open>Runs of the reference instance\<close>

lemma ref_user_id: "get_user_id ref_config = Inr ''1''"
  by (simp add: get_user_id_def ref_config_def)


lemma ref_admits: "admit_run ref_externals ref_config = Inr 10007 \<and> 3 \<le> (10007::nat)"
  by (simp add: ref_externals_def ref_admit_def ref_config_def)




lemma ref_write_memory_run:
  "write_memory ref_externals ref_state ref_config ref_world =
     (Inr None,
      \<lparr>store = [\<lparr>item_namespace = [''memories'', ''1''], item_key = ''k0'',
                 item_value = [(''content'', JStr ''User likes to bike in San Francisco.'')]\<rparr>,
                \<lparr>item_namespace = [''memories'', ''1''], item_key = ''uuid-x'',
                 item_value = [(''content'', JStr ''User enjoys bakeries.'')]\<rparr>],
       uuid_calls = 2,
       log = [Search [''memories'', ''1''],
              Found [\<lparr>item_namespace = [''memories'', ''1''], item_key = ''k0'',
                      item_value = [(''content'', JStr ''User likes to bike.'')]\<rparr>],
              ExtractorInvoke
                [SystemMessage TRUSTCALL_INSTRUCTION,
                 HumanMessage ''I like to bike around San Francisco'']
                (Some [(''k0'', ''Memory'', [(''content'', JStr ''User likes to bike.'')])]),
              Put [''memories'', ''1''] ''k0''
                [(''content'', JStr ''User likes to bike in San Francisco.'')],
              Put [''memories'', ''1''] ''uuid-x'' [(''content'', JStr ''User enjoys bakeries.'')]]\<rparr>)"
  by (simp add: write_memory_def ref_user_id ref_externals_def ref_world_def ref_state_def
        search_store_def list_search_def invoke_extractor_def existing_memories_def
        new_uuid_def put_store_def list_put_def valid_namespace_def valid_label_def
        dict_get_def model_dump_def)

lemma ref_write_memory_events:
  "events_since ref_world (snd (write_memory ref_externals ref_state ref_config ref_world)) =
     [Search [''memories'', ''1''],
      Found [\<lparr>item_namespace = [''memories'', ''1''], item_key = ''k0'',
              item_value = [(''content'', JStr ''User likes to bike.'')]\<rparr>],
      ExtractorInvoke
        [SystemMessage TRUSTCALL_INSTRUCTION,
         HumanMessage ''I like to bike around San Francisco'']
        (Some [(''k0'', ''Memory'', [(''content'', JStr ''User likes to bike.'')])]),
      Put [''memories'', ''1''] ''k0''
        [(''content'', JStr ''User likes to bike in San Francisco.'')],
      Put [''memories'', ''1''] ''uuid-x'' [(''content'', JStr ''User enjoys bakeries.'')]]"
  by (simp add: ref_write_memory_run events_since_def) (simp add: ref_world_def)

lemma ref_write_memory_empty_store_events:
  "events_since (ref_world\<lparr>store := []\<rparr>)
     (snd (write_memory ref_externals ref_state ref_config (ref_world\<lparr>store := []\<rparr>))) =
     [Search [''memories'', ''1''],
      Found [],
      ExtractorInvoke
        [SystemMessage TRUSTCALL_INSTRUCTION,
         HumanMessage ''I like to bike around San Francisco'']
        None,
      Put [''memories'', ''1''] ''uuid-'' [(''content'', JStr ''User is called Lance.'')],
      Put [''memories'', ''1''] ''uuid-x'' [(''content'', JStr ''User likes to bike.'')]]"
  by (simp add: write_memory_def ref_user_id ref_externals_def ref_world_def ref_state_def
        search_store_def list_search_def invoke_extractor_def existing_memories_def
        new_uuid_def put_store_def list_put_def valid_namespace_def valid_label_def
        dict_get_def model_dump_def events_since_def)

lemma ref_call_model_events:
  "events_since ref_world (snd (call_model ref_externals ref_state ref_config ref_world)) =
     [Search [''memories'', ''1''],
      Found [\<lparr>item_namespace = [''memories'', ''1''], item_key = ''k0'',
              item_value = [(''content'', JStr ''User likes to bike.'')]\<rparr>],
      ModelInvoke
        [SystemMessage (MODEL_SYSTEM_MESSAGE_format ''- User likes to bike.''),
         HumanMessage ''I like to bike around San Francisco'']]"
  by (simp add: call_model_def ref_user_id ref_externals_def ref_world_def ref_state_def
        search_store_def list_search_def invoke_model_def events_since_def)

lemma ref_invoke_graph_run:
  "fst (invoke_graph ref_externals ref_config ref_state ref_world) =
     Inr \<lparr>messages = [HumanMessage ''I like to bike around San Francisco'',
                      AIMessage ''Hello!'']\<rparr> \<and>
   events_since ref_world (snd (invoke_graph ref_externals ref_config ref_state ref_world)) =
     [NodeStart ''call_model'', Search [''memories'', ''1''],
      Found [\<lparr>item_namespace = [''memories'', ''1''], item_key = ''k0'',
              item_value = [(''content'', JStr ''User likes to bike.'')]\<rparr>],
      ModelInvoke
        [SystemMessage (MODEL_SYSTEM_MESSAGE_format ''- User likes to bike.''),
         HumanMessage ''I like to bike around San Francisco''],
      NodeEnd ''call_model'', NodeStart ''write_memory'',
      Search [''memories'', ''1''],
      Found [\<lparr>item_namespace = [''memories'', ''1''], item_key = ''k0'',
              item_value = [(''content'', JStr ''User likes to bike.'')]\<rparr>],
      ExtractorInvoke
        [SystemMessage TRUSTCALL_INSTRUCTION,
         HumanMessage ''I like to bike around San Francisco'', AIMessage ''Hello!'']
        (Some [(''k0'', ''Memory'', [(''content'', JStr ''User likes to bike.'')])]),
      Put [''memories'', ''1''] ''k0''
        [(''content'', JStr ''User likes to bike in San Francisco.'')],
      Put [''memories'', ''1''] ''uuid-x'' [(''content'', JStr ''User enjoys bakeries.'')],
      NodeEnd ''write_memory'']"
  by (simp add: invoke_graph_def run_builder call_model_def write_memory_def ref_user_id
        ref_externals_def ref_admit_def ref_config_def ref_world_def ref_state_def
        apply_update_def get_user_id_def
        search_store_def list_search_def invoke_model_def invoke_extractor_def
        existing_memories_def new_uuid_def put_store_def list_put_def
        valid_namespace_def valid_label_def dict_get_def
        model_dump_def events_since_def)

section \<open>The claims\<close>




text \<open>
  Claim C2. For every state, store and config that names a user, every store access of
  the two nodes (the search of \<^verbatim>\<open>call_model\<close>, the search and each put of \<^verbatim>\<open>write_memory\<close>)
  names the namespace \<^verbatim>\<open>("memories", user_id)\<close>, and the namespaces of two distinct user
  ids differ. Hence, on a store that keeps to its contract, the nodes neither read nor
  write another user's records, in whatever turn they run: when a search returns only
  items under the namespace searched, every item a node gets from the store lies under
  \<^verbatim>\<open>("memories", user_id)\<close> and under no other user's namespace; and when a put changes
  nothing outside its namespace, what the store holds in every other namespace is the
  same after the node as before it.
\<close>

theorem nodes_stay_in_user_namespace:
  assumes "get_user_id config = Inr user_id"
  shows "(\<forall>e \<in> set (events_since w (snd (call_model X state config w))).
            accessed_namespace e = None \<or> accessed_namespace e = Some [''memories'', user_id]) \<and>
         (\<forall>e \<in> set (events_since w (snd (write_memory X state config w))).
            accessed_namespace e = None \<or> accessed_namespace e = Some [''memories'', user_id]) \<and>
         (\<forall>other. other \<noteq> user_id \<longrightarrow> [''memories'', other] \<noteq> [''memories'', user_id]) \<and>
         (search_is_local X \<longrightarrow>
            (\<forall>items item.
               (Found items \<in> set (events_since w (snd (call_model X state config w))) \<or>
                Found items \<in> set (events_since w (snd (write_memory X state config w)))) \<and>
               item \<in> set items \<longrightarrow>
               prefix [''memories'', user_id] (item_namespace item) \<and>
               (\<forall>other. other \<noteq> user_id \<longrightarrow>
                  \<not> prefix [''memories'', other] (item_namespace item)))) \<and>
         (put_is_local X \<longrightarrow>
            (\<forall>ns' k'. ns' \<noteq> [''memories'', user_id] \<longrightarrow>
               store_get X (store (snd (call_model X state config w))) ns' k' =
                 store_get X (store w) ns' k' \<and>
               store_get X (store (snd (write_memory X state config w))) ns' k' =
                 store_get X (store w) ns' k'))"
proof (intro conjI ballI allI impI)
  fix e assume "e \<in> set (events_since w (snd (call_model X state config w)))"
  then show "accessed_namespace e = None \<or> accessed_namespace e = Some [''memories'', user_id]"
    by (rule call_model_events_namespace [OF assms])
next
  fix e assume "e \<in> set (events_since w (snd (write_memory X state config w)))"
  then show "accessed_namespace e = None \<or> accessed_namespace e = Some [''memories'', user_id]"
    by (rule write_memory_events_namespace [OF assms])
next
  fix other :: string assume "other \<noteq> user_id"
  then show "[''memories'', other] \<noteq> [''memories'', user_id]" by simp
next
  fix items item
  assume loc: "search_is_local X"
    and f: "(Found items \<in> set (events_since w (snd (call_model X state config w))) \<or>
             Found items \<in> set (events_since w (snd (write_memory X state config w)))) \<and>
            item \<in> set items"
  have "items = store_search X (store w) [''memories'', user_id]"
    using f call_model_found [OF assms] write_memory_found [OF assms] by blast
  then show p: "prefix [''memories'', user_id] (item_namespace item)"
    using loc f unfolding search_is_local_def by blast
  fix other :: string assume "other \<noteq> user_id"
  then show "\<not> prefix [''memories'', other] (item_namespace item)"
    using p by (rule other_user_not_prefix [rotated])
next
  fix ns' k'
  assume "put_is_local X" and "ns' \<noteq> [''memories'', user_id]"
  then show "store_get X (store (snd (write_memory X state config w))) ns' k' =
                 store_get X (store w) ns' k'"
    by (rule write_memory_is_local [OF assms])
  show "store_get X (store (snd (call_model X state config w))) ns' k' =
                 store_get X (store w) ns' k'"
    by (simp add: call_model_store)
qed

theorem nodes_stay_in_user_namespace_witness:
  "get_user_id ref_config = Inr ''1'' \<and>
   search_is_local ref_externals \<and>
   put_is_local ref_externals \<and>
   Put [''memories'', ''1''] ''uuid-x'' [(''content'', JStr ''User enjoys bakeries.'')]
     \<in> set (events_since ref_world
               (snd (write_memory ref_externals ref_state ref_config ref_world))) \<and>
   accessed_namespace
     (Put [''memories'', ''1''] ''uuid-x'' [(''content'', JStr ''User enjoys bakeries.'')]) =
     Some [''memories'', ''1''] \<and>
   [''memories'', ''2''] \<noteq> [''memories'', ''1''] \<and>
   Found [\<lparr>item_namespace = [''memories'', ''1''], item_key = ''k0'',
           item_value = [(''content'', JStr ''User likes to bike.'')]\<rparr>]
     \<in> set (events_since ref_world
               (snd (call_model ref_externals ref_state ref_config ref_world))) \<and>
   prefix [''memories'', ''1''] [''memories'', ''1''] \<and>
   \<not> prefix [''memories'', ''2''] [''memories'', ''1''] \<and>
   store_get ref_externals
     (store (snd (write_memory ref_externals ref_state ref_config
                    (ref_world\<lparr>store := store ref_world @
                       [\<lparr>item_namespace = [''memories'', ''2''], item_key = ''k9'',
                         item_value = [(''content'', JStr ''User plays chess.'')]\<rparr>]\<rparr>))))
     [''memories'', ''2''] ''k9'' = Some [(''content'', JStr ''User plays chess.'')]"
proof -
  let ?e = "Put [''memories'', ''1''] ''uuid-x'' [(''content'', JStr ''User enjoys bakeries.'')]"
  let ?i = "\<lparr>item_namespace = [''memories'', ''1''], item_key = ''k0'',
           item_value = [(''content'', JStr ''User likes to bike.'')]\<rparr>"
  let ?w2 = "ref_world\<lparr>store := store ref_world @
                       [\<lparr>item_namespace = [''memories'', ''2''], item_key = ''k9'',
                         item_value = [(''content'', JStr ''User plays chess.'')]\<rparr>]\<rparr>"
  note inst = nodes_stay_in_user_namespace [OF ref_user_id, of ref_world ref_externals ref_state]
  note inst2 = nodes_stay_in_user_namespace [OF ref_user_id, of ?w2 ref_externals ref_state]
  have mem: "?e \<in> set (events_since ref_world
               (snd (write_memory ref_externals ref_state ref_config ref_world)))"
    by (simp add: ref_write_memory_events)
  have acc: "accessed_namespace ?e = None \<or> accessed_namespace ?e = Some [''memories'', ''1'']"
    using inst [THEN conjunct2, THEN conjunct1, THEN bspec, OF mem] .
  have ne: "[''memories'', ''2''] \<noteq> [''memories'', ''1'']"
    using inst [THEN conjunct2, THEN conjunct2, THEN conjunct1, THEN spec, of "''2''"]
    by simp
  have found: "Found [?i] \<in> set (events_since ref_world
               (snd (call_model ref_externals ref_state ref_config ref_world)))"
    by (simp add: ref_call_model_events)
  have "prefix [''memories'', ''1''] (item_namespace ?i) \<and>
        (\<forall>other. other \<noteq> ''1'' \<longrightarrow> \<not> prefix [''memories'', other] (item_namespace ?i))"
    using inst [THEN conjunct2, THEN conjunct2, THEN conjunct2, THEN conjunct1, THEN mp,
        OF ref_search_is_local, THEN spec, THEN spec, of "[?i]" ?i] found
    by simp
  then have pre: "prefix [''memories'', ''1''] [''memories'', ''1''] \<and>
                  \<not> prefix [''memories'', ''2''] [''memories'', ''1'']"
    by simp
  have "store_get ref_externals
          (store (snd (write_memory ref_externals ref_state ref_config ?w2)))
          [''memories'', ''2''] ''k9'' =
        store_get ref_externals (store ?w2) [''memories'', ''2''] ''k9''"
    using inst2 [THEN conjunct2, THEN conjunct2, THEN conjunct2, THEN conjunct2, THEN mp,
        OF ref_put_is_local, THEN spec, THEN spec, of "[''memories'', ''2'']" "''k9''"]
    by simp
  then have kept: "store_get ref_externals
          (store (snd (write_memory ref_externals ref_state ref_config ?w2)))
          [''memories'', ''2''] ''k9'' = Some [(''content'', JStr ''User plays chess.'')]"
    by (simp add: ref_externals_def ref_world_def)
  show ?thesis
    using ref_user_id ref_search_is_local ref_put_is_local mem acc ne found pre kept
    by simp
qed

text \<open>
  Claim C3, as amended. In no turn does \<^verbatim>\<open>write_memory\<close> run before \<^verbatim>\<open>call_model\<close> or a
  node run twice: the nodes a turn starts and completes are an initial part of
  "\<^verbatim>\<open>call_model\<close> starts, \<^verbatim>\<open>call_model\<close> returns, \<^verbatim>\<open>write_memory\<close> starts, \<^verbatim>\<open>write_memory\<close>
  returns". In every turn that the compiled graph admits with at least three steps (the
  checkpointer accepts the config and the recursion limit does not cut the run short),
  \<^verbatim>\<open>call_model\<close> runs first and exactly once; when it raises, the turn ends with that
  exception and \<^verbatim>\<open>write_memory\<close> does not run; when it returns, \<^verbatim>\<open>write_memory\<close> then runs
  exactly once, on the state updated with the response, and the turn returns that state
  when \<^verbatim>\<open>write_memory\<close> returns and ends with the exception of \<^verbatim>\<open>write_memory\<close> when it
  raises.
\<close>

theorem turn_runs_call_model_then_write_memory:
  "let events = filter is_node_event (events_since w (snd (invoke_graph X config state w)));
       full = [NodeStart ''call_model'', NodeEnd ''call_model'',
               NodeStart ''write_memory'', NodeEnd ''write_memory'']
   in prefix events full \<and>
      (\<forall>steps. admit_run X config = Inr steps \<and> 3 \<le> steps \<longrightarrow>
         (case call_model X state config (w\<lparr>log := log w @ [NodeStart ''call_model'']\<rparr>) of
            (Inl e, w1) \<Rightarrow>
              fst (invoke_graph X config state w) = Inl e \<and> events = [NodeStart ''call_model'']
          | (Inr upd, w1) \<Rightarrow>
              (case write_memory X (apply_update X state upd) config
                      (w1\<lparr>log := log w1 @ [NodeEnd ''call_model'', NodeStart ''write_memory'']\<rparr>) of
                 (Inl e, w2) \<Rightarrow>
                   fst (invoke_graph X config state w) = Inl e \<and>
                   events = [NodeStart ''call_model'', NodeEnd ''call_model'',
                             NodeStart ''write_memory'']
               | (Inr upd2, w2) \<Rightarrow>
                   fst (invoke_graph X config state w) = Inr (apply_update X state upd) \<and>
                   events = full)))"
proof -
  let ?wS = "w\<lparr>log := log w @ [NodeStart ''call_model'']\<rparr>"
  let ?events = "filter is_node_event (events_since w (snd (invoke_graph X config state w)))"
  obtain r1 w1 where cm: "call_model X state config ?wS = (r1, w1)"
    by force
  obtain es1 where l1: "log w1 = log w @ NodeStart ''call_model'' # es1"
    and n1: "filter is_node_event es1 = []"
    using call_model_log [of X state config ?wS] call_model_no_node_events [of ?wS X state config]
      cm by simp
  show ?thesis
  proof (cases "admit_run X config")
    case (Inl e)
    then have "invoke_graph X config state w = (Inl e, w)"
      by (simp add: invoke_graph_def)
    then show ?thesis
      using Inl by (simp add: Let_def events_since_self)
  next
    case (Inr steps)
    have inv: "invoke_graph X config state w = run_from steps builder X config START state w"
      using Inr by (simp add: invoke_graph_def)
    show ?thesis
    proof (cases r1)
      case e: (Inl e)
      have run: "invoke_graph X config state w =
                   (if steps = 0 then (Inl GraphRecursionError, w) else (Inl e, w1))"
        by (simp add: inv run_builder cm e)
      have ev: "?events = (if steps = 0 then [] else [NodeStart ''call_model''])"
        by (simp add: run events_since_def l1 n1)
      show ?thesis
        unfolding Let_def ev using Inr by (auto simp: cm e run)
    next
      case upd: (Inr upd)
      let ?wM = "w1\<lparr>log := log w1 @ [NodeEnd ''call_model'', NodeStart ''write_memory'']\<rparr>"
      let ?st = "apply_update X state upd"
      obtain r2 w2 where wm: "write_memory X ?st config ?wM = (r2, w2)"
        by force
      obtain es2 where l2: "log w2 = log w @ NodeStart ''call_model'' # es1
                  @ NodeEnd ''call_model'' # NodeStart ''write_memory'' # es2"
        and n2: "filter is_node_event es2 = []"
        using write_memory_log [of X ?st config ?wM]
          write_memory_no_node_events [of ?wM X ?st config] wm
        by (simp add: l1)
      show ?thesis
      proof (cases r2)
        case e: (Inl e)
        have run: "invoke_graph X config state w =
                   (if steps = 0 then (Inl GraphRecursionError, w)
                    else if steps = 1
                      then (Inl GraphRecursionError, w1\<lparr>log := log w1 @ [NodeEnd ''call_model'']\<rparr>)
                      else (Inl e, w2))"
          by (simp add: inv run_builder cm upd wm e)
        have ev: "?events =
                   (if steps = 0 then []
                    else if steps = 1 then [NodeStart ''call_model'', NodeEnd ''call_model'']
                    else [NodeStart ''call_model'', NodeEnd ''call_model'',
                          NodeStart ''write_memory''])"
          by (simp add: run events_since_def l1 n1 l2 n2)
        show ?thesis
          unfolding Let_def ev using Inr by (auto simp: cm upd wm e run)
      next
        case upd2: (Inr upd2)
        have none: "upd2 = None"
          using write_memory_result [of X ?st config ?wM upd2] wm upd2 by simp
        have run: "invoke_graph X config state w =
                   (if steps = 0 then (Inl GraphRecursionError, w)
                    else if steps = 1
                      then (Inl GraphRecursionError, w1\<lparr>log := log w1 @ [NodeEnd ''call_model'']\<rparr>)
                      else if steps = 2
                        then (Inl GraphRecursionError,
                              w2\<lparr>log := log w2 @ [NodeEnd ''write_memory'']\<rparr>)
                        else (Inr ?st, w2\<lparr>log := log w2 @ [NodeEnd ''write_memory'']\<rparr>))"
          by (simp add: inv run_builder cm upd wm upd2 none apply_update_None)
        have ev: "?events =
                   (if steps = 0 then []
                    else if steps = 1 then [NodeStart ''call_model'', NodeEnd ''call_model'']
                    else [NodeStart ''call_model'', NodeEnd ''call_model'',
                          NodeStart ''write_memory'', NodeEnd ''write_memory''])"
          by (simp add: run events_since_def l1 n1 l2 n2)
        show ?thesis
          unfolding Let_def ev using Inr by (auto simp: cm upd wm upd2 run)
      qed
    qed
  qed
qed

theorem turn_runs_call_model_then_write_memory_witness:
  "admit_run ref_externals ref_config = Inr 10007 \<and>
   fst (invoke_graph ref_externals ref_config ref_state ref_world) =
     Inr \<lparr>messages = [HumanMessage ''I like to bike around San Francisco'',
                      AIMessage ''Hello!'']\<rparr> \<and>
   filter is_node_event
     (events_since ref_world (snd (invoke_graph ref_externals ref_config ref_state ref_world))) =
     [NodeStart ''call_model'', NodeEnd ''call_model'',
      NodeStart ''write_memory'', NodeEnd ''write_memory'']"
proof -
  note inst = turn_runs_call_model_then_write_memory
      [of ref_world ref_externals ref_config ref_state, unfolded Let_def]
  note run = mp [OF inst [THEN conjunct2, THEN spec, of 10007] ref_admits]
  have "fst (invoke_graph ref_externals ref_config ref_state ref_world) =
          Inr \<lparr>messages = [HumanMessage ''I like to bike around San Francisco'',
                      AIMessage ''Hello!'']\<rparr> \<and>
        filter is_node_event
          (events_since ref_world
             (snd (invoke_graph ref_externals ref_config ref_state ref_world))) =
          [NodeStart ''call_model'', NodeEnd ''call_model'',
           NodeStart ''write_memory'', NodeEnd ''write_memory'']"
    using run
    by (simp add: call_model_def write_memory_def ref_user_id
        ref_externals_def ref_world_def ref_state_def apply_update_def
        search_store_def list_search_def invoke_model_def invoke_extractor_def
        existing_memories_def new_uuid_def put_store_def list_put_def
        valid_namespace_def valid_label_def dict_get_def model_dump_def)
  then show ?thesis
    using ref_admits by simp
qed

text \<open>
  Counterexamples to claim C3 as stated ("for every invocation, \<^verbatim>\<open>call_model\<close> completes and
  \<^verbatim>\<open>write_memory\<close> runs exactly once"). With a config that names a thread but no user,
  \<^verbatim>\<open>call_model\<close> raises \<^verbatim>\<open>KeyError('user_id')\<close> and so does not complete; the turn ends
  with that exception and \<^verbatim>\<open>write_memory\<close> has not run. With a config without
  \<^verbatim>\<open>"configurable"\<close> the graph is not admitted and no node runs. With a recursion limit
  of 1 the run is cut short after \<^verbatim>\<open>call_model\<close> has returned.
\<close>

theorem turn_without_write_memory_counterexample:
  "fst (call_model ref_externals ref_state
          \<lparr>configurable = Some [''thread_id'' \<mapsto> ''1''], recursion_limit = None\<rparr>
          ref_world) = Inl (KeyError ''user_id'') \<and>
   fst (invoke_graph ref_externals
          \<lparr>configurable = Some [''thread_id'' \<mapsto> ''1''], recursion_limit = None\<rparr>
          ref_state ref_world) = Inl (KeyError ''user_id'') \<and>
   filter is_node_event
     (events_since ref_world
        (snd (invoke_graph ref_externals
                \<lparr>configurable = Some [''thread_id'' \<mapsto> ''1''], recursion_limit = None\<rparr>
                ref_state ref_world))) = [NodeStart ''call_model''] \<and>
   invoke_graph ref_externals \<lparr>configurable = None, recursion_limit = None\<rparr> ref_state ref_world
     = (Inl ValueError, ref_world) \<and>
   fst (invoke_graph ref_externals (ref_config\<lparr>recursion_limit := Some 1\<rparr>) ref_state ref_world)
     = Inl GraphRecursionError \<and>
   filter is_node_event
     (events_since ref_world
        (snd (invoke_graph ref_externals (ref_config\<lparr>recursion_limit := Some 1\<rparr>)
                ref_state ref_world))) = [NodeStart ''call_model'', NodeEnd ''call_model'']"
  by (simp add: invoke_graph_def run_builder call_model_def get_user_id_def
        ref_externals_def ref_admit_def ref_config_def ref_world_def ref_state_def
        search_store_def list_search_def invoke_model_def events_since_def)

text \<open>
  Claim C4. The graph the notebook builds has exactly two nodes, named \<^verbatim>\<open>"call_model"\<close> and
  \<^verbatim>\<open>"write_memory"\<close>, and exactly three edges: from \<^verbatim>\<open>START\<close> to \<^verbatim>\<open>call_model\<close>, from
  \<^verbatim>\<open>call_model\<close> to \<^verbatim>\<open>write_memory\<close>, and from \<^verbatim>\<open>write_memory\<close> to \<^verbatim>\<open>END\<close>.
\<close>

theorem builder_nodes_and_edges:
  "map fst (nodes builder) = [''call_model'', ''write_memory''] \<and>
   edges builder = [(START, ''call_model''), (''call_model'', ''write_memory''),
                    (''write_memory'', END)] \<and>
   length (nodes builder) = 2 \<and> length (edges builder) = 3"
  by (simp add: builder_def add_edge_def add_node_def StateGraph_def)

text \<open>
  Claim C5. Every value \<^verbatim>\<open>write_memory\<close> puts into the store is the JSON dump of a
  \<^verbatim>\<open>Memory\<close> record: a dictionary with exactly one key, \<^verbatim>\<open>"content"\<close>, whose value is a
  string.
\<close>

theorem write_memory_stores_memory_records:
  assumes "Put ns k v \<in> set (events_since w (snd (write_memory X state config w)))"
  shows "\<exists>m. v = model_dump m \<and> v = [(''content'', JStr (content m))]"
proof (cases "get_user_id config")
  case (Inl err)
  then show ?thesis
    using assms by (simp add: write_memory_raises_on_config events_since_self)
next
  case (Inr user_id)
  obtain m where
    "events_since w (snd (write_memory X state config w)) =
       [Search [''memories'', user_id],
        Found (store_search X (store w) [''memories'', user_id]),
        ExtractorInvoke (extractor_messages X state)
          (existing_memories ''Memory'' (store_search X (store w) [''memories'', user_id]))]
       @ take m (memory_puts X [''memories'', user_id] (uuid_calls w)
                   (extracted_pairs X state user_id (store w)))"
    using write_memory_events [OF Inr, of X state w] by blast
  then have "Put ns k v \<in> set (memory_puts X [''memories'', user_id] (uuid_calls w)
                   (extracted_pairs X state user_id (store w)))"
    using assms by (auto dest: in_set_takeD)
  then obtain k' r where "Put ns k v = Put [''memories'', user_id] k' (model_dump r)"
    using memory_puts_member by blast
  then show ?thesis
    by (auto simp: model_dump_def)
qed

theorem write_memory_stores_memory_records_witness:
  "Put [''memories'', ''1''] ''uuid-x'' [(''content'', JStr ''User enjoys bakeries.'')]
     \<in> set (events_since ref_world
               (snd (write_memory ref_externals ref_state ref_config ref_world))) \<and>
   (\<exists>m. [(''content'', JStr ''User enjoys bakeries.'')] = model_dump m \<and>
        [(''content'', JStr ''User enjoys bakeries.'')] = [(''content'', JStr (content m))])"
proof -
  have mem: "Put [''memories'', ''1''] ''uuid-x'' [(''content'', JStr ''User enjoys bakeries.'')]
     \<in> set (events_since ref_world
               (snd (write_memory ref_externals ref_state ref_config ref_world)))"
    by (simp add: ref_write_memory_events)
  show ?thesis
    using mem write_memory_stores_memory_records [OF mem] by simp
qed

text \<open>
  Claim C6, as amended. The notebook defines two schemas of one field each: \<^verbatim>\<open>Memory\<close>, a
  memory record with the single text field \<^verbatim>\<open>content\<close>, and \<^verbatim>\<open>MemoryCollection\<close>, with the
  single field \<^verbatim>\<open>memories\<close>, a list of \<^verbatim>\<open>Memory\<close> records. A memory record is its text and
  nothing else, a collection is its list and nothing else, and the dump of a memory
  record has the one key \<^verbatim>\<open>"content"\<close>.
\<close>

theorem memory_schemas_have_one_field_each:
  fixes m :: Memory and c :: MemoryCollection
  shows "m = \<lparr>content = content m\<rparr> \<and>
         c = \<lparr>memories = memories c\<rparr> \<and>
         content \<lparr>content = text\<rparr> = text \<and>
         memories \<lparr>memories = ms\<rparr> = ms \<and>
         model_dump m = [(''content'', JStr (content m))] \<and>
         map fst (model_dump m) = [''content'']"
  by (simp add: model_dump_def)

text \<open>
  Counterexample to claim C6 as stated ("a two-field schema for a memory record"): a
  memory record has one field, its dump one key.
\<close>

theorem memory_record_one_key_counterexample:
  "model_dump \<lparr>content = ''User likes to bike.''\<rparr> = [(''content'', JStr ''User likes to bike.'')] \<and>
   length (model_dump \<lparr>content = ''User likes to bike.''\<rparr>) = 1"
  by (simp add: model_dump_def)




text \<open>
  Claim C8. \<^verbatim>\<open>call_model\<close> performs no put: for every state, config and store, whether it
  returns or raises, the store after it is the store before it, no UUID has been drawn
  and its calls contain no \<^verbatim>\<open>store.put\<close>.
\<close>

theorem call_model_leaves_store:
  "store (snd (call_model X state config w)) = store w \<and>
   uuid_calls (snd (call_model X state config w)) = uuid_calls w \<and>
   filter is_put (events_since w (snd (call_model X state config w))) = []"
proof (cases "get_user_id config")
  case (Inl err)
  show ?thesis
    by (simp add: call_model_raises_on_config [OF Inl] events_since_self)
next
  case (Inr user_id)
  show ?thesis
  proof (cases "memory_lines (py_format X) (store_search X (store w) [''memories'', user_id])")
    case (Inl err)
    show ?thesis
      by (simp add: call_model_raises_on_value [OF Inr Inl] events_since_def)
  next
    case ls: (Inr ls)
    show ?thesis
      by (simp add: call_model_returns [OF Inr ls] events_since_def)
  qed
qed

text \<open>
  Claim C9. In \<^verbatim>\<open>write_memory\<close> the extractor is invoked once, with \<^verbatim>\<open>"existing"\<close> equal to
  \<^verbatim>\<open>None\<close> when the search of the user's namespace returns no item, and otherwise equal
  to the list that holds, for each item found and in the order of the search, the triple
  (the item's key, \<^verbatim>\<open>"Memory"\<close>, the item's value).
\<close>

theorem write_memory_existing_argument:
  assumes "get_user_id config = Inr user_id"
  shows "filter is_extractor_invoke (events_since w (snd (write_memory X state config w))) =
     [ExtractorInvoke
        (merge_message_runs X (SystemMessage TRUSTCALL_INSTRUCTION # messages state))
        (if store_search X (store w) [''memories'', user_id] = [] then None
         else Some (map (\<lambda>item. (item_key item, ''Memory'', item_value item))
                      (store_search X (store w) [''memories'', user_id])))]"
proof -
  obtain m where
    "events_since w (snd (write_memory X state config w)) =
       [Search [''memories'', user_id],
        Found (store_search X (store w) [''memories'', user_id]),
        ExtractorInvoke (extractor_messages X state)
          (existing_memories ''Memory'' (store_search X (store w) [''memories'', user_id]))]
       @ take m (memory_puts X [''memories'', user_id] (uuid_calls w)
                   (extracted_pairs X state user_id (store w)))"
    using write_memory_events [OF assms, of X state w] by blast
  then show ?thesis
    by (simp add: memory_puts_take_no_extractor existing_memories_def extractor_messages_def)
qed

theorem write_memory_existing_argument_witness:
  "get_user_id ref_config = Inr ''1'' \<and>
   filter is_extractor_invoke
     (events_since ref_world (snd (write_memory ref_externals ref_state ref_config ref_world))) =
     [ExtractorInvoke
        [SystemMessage TRUSTCALL_INSTRUCTION,
         HumanMessage ''I like to bike around San Francisco'']
        (Some [(''k0'', ''Memory'', [(''content'', JStr ''User likes to bike.'')])])] \<and>
   filter is_extractor_invoke
     (events_since (ref_world\<lparr>store := []\<rparr>)
        (snd (write_memory ref_externals ref_state ref_config (ref_world\<lparr>store := []\<rparr>)))) =
     [ExtractorInvoke
        [SystemMessage TRUSTCALL_INSTRUCTION,
         HumanMessage ''I like to bike around San Francisco'']
        None]"
  using ref_user_id
    write_memory_existing_argument [OF ref_user_id, of ref_world ref_externals ref_state]
    write_memory_existing_argument [OF ref_user_id, of "ref_world\<lparr>store := []\<rparr>" ref_externals
      ref_state]
  by (simp add: ref_externals_def ref_world_def ref_state_def list_search_def)

text \<open>
  Claim C10. If \<^verbatim>\<open>os.environ[var]\<close> is already a non-empty string, \<^verbatim>\<open>_set_env(var)\<close>
  returns without prompting and leaves the whole process state, the variable's value
  included, as it was. Hence once a call has returned with a non-empty value in place,
  every further call is a no-op.
\<close>

theorem set_env_idempotent:
  "(environ s var = Some v \<and> v \<noteq> [] \<longrightarrow> set_env var s = (Inr (), s)) \<and>
   (set_env var s = (Inr (), s1) \<and> environ s1 var \<noteq> Some [] \<longrightarrow>
      set_env var s1 = (Inr (), s1))"
proof (intro conjI impI)
  assume "environ s var = Some v \<and> v \<noteq> []"
  then show "set_env var s = (Inr (), s)"
    by (simp add: set_env_already_set)
next
  assume a: "set_env var s = (Inr (), s1) \<and> environ s1 var \<noteq> Some []"
  have "\<exists>w. environ s1 var = Some w"
  proof (cases "environ s var = None \<or> environ s var = Some []")
    case True
    then show ?thesis
      using set_env_after_prompt [OF True] a by blast
  next
    case False
    then obtain u where u: "environ s var = Some u" "u \<noteq> []"
      by auto
    then have "s1 = s"
      using a set_env_already_set [OF u] by simp
    then show ?thesis
      using u by simp
  qed
  then obtain w where "environ s1 var = Some w" by auto
  moreover from this a have "w \<noteq> []" by auto
  ultimately show "set_env var s1 = (Inr (), s1)"
    by (rule set_env_already_set)
qed

theorem set_env_idempotent_witness:
  "set_env ''OPENAI_API_KEY''
     \<lparr>os_environ = env_empty, tty_input = [''sk-1'', ''sk-2''], prompts = []\<rparr>
   = (Inr (), \<lparr>os_environ = env_put ''OPENAI_API_KEY'' ''sk-1'' env_empty,
               tty_input = [''sk-2''], prompts = [''OPENAI_API_KEY: '']\<rparr>) \<and>
   set_env ''OPENAI_API_KEY''
     \<lparr>os_environ = env_put ''OPENAI_API_KEY'' ''sk-1'' env_empty, tty_input = [''sk-2''],
       prompts = [''OPENAI_API_KEY: '']\<rparr>
   = (Inr (), \<lparr>os_environ = env_put ''OPENAI_API_KEY'' ''sk-1'' env_empty,
               tty_input = [''sk-2''], prompts = [''OPENAI_API_KEY: '']\<rparr>)"
proof -
  let ?s0 = "\<lparr>os_environ = env_empty, tty_input = [''sk-1'', ''sk-2''], prompts = []\<rparr>"
  let ?s1 = "\<lparr>os_environ = env_put ''OPENAI_API_KEY'' ''sk-1'' env_empty,
              tty_input = [''sk-2''], prompts = [''OPENAI_API_KEY: '']\<rparr>"
  have first: "set_env ''OPENAI_API_KEY'' ?s0 = (Inr (), ?s1)"
    by (simp add: set_env_def getpass_def environ_def env_get_empty environ_setitem_def)
  have h1: "environ ?s1 ''OPENAI_API_KEY'' = Some ''sk-1'' \<and> ''sk-1'' \<noteq> []"
    by (simp add: environ_def env_get_put valid_name_def valid_value_def)
  have h2: "set_env ''OPENAI_API_KEY'' ?s0 = (Inr (), ?s1) \<and>
            environ ?s1 ''OPENAI_API_KEY'' \<noteq> Some []"
    using first h1 by simp
  have again: "set_env ''OPENAI_API_KEY'' ?s1 = (Inr (), ?s1)"
    using set_env_idempotent [of ?s1 "''OPENAI_API_KEY''" "''sk-1''" ?s1] h1 by blast
  have "set_env ''OPENAI_API_KEY'' ?s1 = (Inr (), ?s1)"
    using set_env_idempotent [of ?s0 "''OPENAI_API_KEY''" "''sk-1''" ?s1] h2 by blast
  then show ?thesis
    using first again by simp
qed

end
